theory Spec2Isabelle
  imports Main
begin

section \<open>The dialog widget of src/dialog/index.ts\<close>

text \<open>
  The widget is a class with three private mutable fields, a handful of private
  methods and a \<open>render\<close> method. The embedding follows the class member by member.
  Isabelle names cannot start with an underscore, so a private member \<open>_x\<close> of the
  source is written \<open>priv_x\<close> here.

  A property that the caller may omit (\<open>closeable?: boolean\<close>) is an \<open>option\<close>:
  \<open>None\<close> is JavaScript's \<open>undefined\<close>. A callback property carries no data of its
  own in the model: \<open>Some ()\<close> says that the caller supplied a function, and calling
  it is recorded as an effect.
\<close>

subsection \<open>Virtual DOM values\<close>

text \<open>The three bound methods that \<open>render\<close> hands out as event handlers.\<close>

datatype handler = OnCloseClick | OnUnderlayClick | OnKeyUp

text \<open>JavaScript values as they occur in node properties.\<close>

datatype pvalue =
    Undefined
  | Null
  | Str string
  | Num int
  | Arr "pvalue list"
  | Obj "(string \<times> pvalue) list"
  | Fn handler

text \<open>The two widgets that \<open>render\<close> instantiates with \<open>w(...)\<close>.\<close>

datatype widget = GlobalEvent | Icon

text \<open>
  A \<open>DNode\<close>: the result of \<open>v(tag, properties, children)\<close>, of
  \<open>w(widget, properties)\<close>, a string child, or \<open>null\<close>.
\<close>

datatype DNode =
    VNode string "(string \<times> pvalue) list" "DNode list"
  | WNode widget "(string \<times> pvalue) list"
  | TextNode string
  | NullNode

text \<open>
  Assignment of one key of an object literal: a key that is already there keeps its
  place and takes the new value, a new key goes to the end.
\<close>

fun assign :: "string \<Rightarrow> pvalue \<Rightarrow> (string \<times> pvalue) list \<Rightarrow> (string \<times> pvalue) list" where
  "assign k x [] = [(k, x)]"
| "assign k x ((k', y) # ps) = (if k' = k then (k, x) # ps else (k', y) # assign k x ps)"

text \<open>An object literal \<open>{k1: v1, ..., kn: vn}\<close>, its entries taken in order.\<close>

definition object :: "(string \<times> pvalue) list \<Rightarrow> (string \<times> pvalue) list" where
  "object kvs = foldl (\<lambda>ob (k, x). assign k x ob) [] kvs"

subsection \<open>Properties, instance fields and collaborators\<close>

datatype RoleType = dialog | alertdialog

fun role_string :: "RoleType \<Rightarrow> string" where
  "role_string dialog = ''dialog''"
| "role_string alertdialog = ''alertdialog''"

record DialogProperties =
  closeable :: "bool option"
  closeText :: "string option"
  enterAnimation :: "string option"
  exitAnimation :: "string option"
  modal :: "bool option"
  onOpen :: "unit option"
  onRequestClose :: "unit option"
  "open" :: "bool option"
  role :: "RoleType option"
  title :: "string option"
  underlay :: "bool option"
  aria :: "(string \<times> pvalue) list option"
  theme :: pvalue
  classes :: pvalue

text \<open>The fields of a \<open>DialogBase\<close> instance, and the children its parent gave it.\<close>

record DialogBase =
  priv_titleId :: string
  priv_wasOpen :: "bool option"
  priv_callFocus :: bool
  priv_initialFocusSet :: bool
  children :: "DNode list"

text \<open>The keys of the imported CSS modules \<open>../theme/dialog.m.css\<close>.\<close>

datatype css =
    css_root | css_main | css_title | css_close | css_content
  | css_underlayVisible | css_underlayEnter | css_underlayExit
  | css_enter | css_exit

text \<open>
  What the class imports and does not define: the themed-class lookup \<open>this.theme\<close>,
  the fixed class \<open>fixedCss.underlay\<close>, the message bundle that
  \<open>this.localizeBundle(commonBundle)\<close> resolves (only \<open>messages.close\<close> is read),
  \<open>formatAriaProperties\<close> and the key code \<open>Keys.Escape\<close>. They are parameters of
  the model.
\<close>

record framework =
  theme_of :: "css option \<Rightarrow> string option"
  fixedCss_underlay :: string
  messages_close :: string
  formatAriaProperties :: "(string \<times> pvalue) list \<Rightarrow> (string \<times> pvalue) list"
  Keys_Escape :: int

subsection \<open>Effects and events\<close>

text \<open>
  What a method does to the world outside the instance: it calls one of the caller's
  two callbacks, or it asks the Focus meta whether a node contains focus
  (\<open>this.meta(Focus).get(key)\<close>), or it tells it to focus a node
  (\<open>this.meta(Focus).set(key)\<close>). A method returns the effects it performed, in order.
\<close>

datatype effect = CallOnOpen | CallOnRequestClose | FocusGet string | FocusSet string

text \<open>A DOM event: \<open>stopPropagation()\<close> sets its flag; a keyboard event has \<open>which\<close>.\<close>

record Event =
  propagationStopped :: bool

record KeyboardEvent = Event +
  which :: int

definition stopPropagation :: "'a Event_scheme \<Rightarrow> 'a Event_scheme" where
  "stopPropagation event = event\<lparr>propagationStopped := True\<rparr>"

text \<open>JavaScript truthiness of an optional boolean: \<open>undefined\<close> and \<open>false\<close> are falsy.\<close>

definition truthy :: "bool option \<Rightarrow> bool" where
  "truthy b = (case b of None \<Rightarrow> False | Some v \<Rightarrow> v)"

text \<open>A destructuring default \<open>x = d\<close>: it applies to \<open>undefined\<close> only.\<close>

definition default_to :: "'a \<Rightarrow> 'a option \<Rightarrow> 'a" where
  "default_to d x = (case x of None \<Rightarrow> d | Some y \<Rightarrow> y)"

subsection \<open>The private methods\<close>

text \<open>
  \<open>_close\<close>: \<open>closeable && onRequestClose && onRequestClose()\<close>, with
  \<open>closeable = true\<close> by default.
\<close>

definition priv_close :: "DialogProperties \<Rightarrow> effect list" where
  "priv_close props =
     (if default_to True (closeable props) \<and> onRequestClose props \<noteq> None
      then [CallOnRequestClose] else [])"

definition priv_onCloseClick :: "DialogProperties \<Rightarrow> 'a Event_scheme \<Rightarrow> 'a Event_scheme \<times> effect list" where
  "priv_onCloseClick props event = (stopPropagation event, priv_close props)"

text \<open>
  \<open>_checkFocus\<close>. The argument \<open>containsFocus\<close> is the answer of
  \<open>this.meta(Focus).get('main')\<close>; the query is made, and the answer used, only
  when the dialog is open.
\<close>

definition priv_checkFocus :: "DialogProperties \<Rightarrow> bool \<Rightarrow> DialogBase \<Rightarrow> effect list \<times> DialogBase" where
  "priv_checkFocus props containsFocus this =
     (if \<not> truthy (open props) then ([], this)
      else
        let e1 = [FocusGet ''main''];
            this1 = (if containsFocus
                     then this\<lparr>priv_callFocus := False, priv_initialFocusSet := True\<rparr>
                     else this);
            (e2, this2) =
              (if priv_initialFocusSet this1 \<and> \<not> containsFocus
               then (if truthy (modal props)
                     then ([], this1\<lparr>priv_callFocus := True\<rparr>)
                     else (priv_close props, this1))
               else ([], this1));
            e3 = (if priv_callFocus this2 then [FocusSet ''main''] else [])
        in (e1 @ e2 @ e3, this2))"

definition priv_onUnderlayClick :: "DialogProperties \<Rightarrow> 'a Event_scheme \<Rightarrow> 'a Event_scheme \<times> effect list" where
  "priv_onUnderlayClick props event =
     (stopPropagation event, if \<not> truthy (modal props) then priv_close props else [])"

definition priv_onKeyUp :: "framework \<Rightarrow> DialogProperties \<Rightarrow> KeyboardEvent \<Rightarrow> KeyboardEvent \<times> effect list" where
  "priv_onKeyUp fw props event =
     (stopPropagation event, if which event = Keys_Escape fw then priv_close props else [])"

definition priv_onOpen :: "DialogProperties \<Rightarrow> DialogBase \<Rightarrow> effect list \<times> DialogBase" where
  "priv_onOpen props this =
     (if onOpen props \<noteq> None then [CallOnOpen] else [],
      this\<lparr>priv_callFocus := True, priv_initialFocusSet := False\<rparr>)"

subsection \<open>Rendering\<close>

text \<open>A themed class as a property value: the class name, or \<open>null\<close>.\<close>

definition class_value :: "string option \<Rightarrow> pvalue" where
  "class_value c = (case c of None \<Rightarrow> Null | Some s \<Rightarrow> Str s)"

text \<open>\<open>x || undefined\<close> for a themed class \<open>x\<close>: the empty string is falsy too.\<close>

definition or_undefined :: "string option \<Rightarrow> pvalue" where
  "or_undefined c = (case c of None \<Rightarrow> Undefined | Some s \<Rightarrow> if s = [] then Undefined else Str s)"

definition getContent :: "framework \<Rightarrow> DialogBase \<Rightarrow> DNode" where
  "getContent fw this =
     VNode ''div''
       (object [(''classes'', class_value (theme_of fw (Some css_content))),
                (''key'', Str ''content'')])
       (children this)"

definition renderTitle :: "DialogProperties \<Rightarrow> DialogBase \<Rightarrow> DNode" where
  "renderTitle props this =
     VNode ''div'' (object [(''id'', Str (priv_titleId this))])
       [TextNode (default_to [] (title props))]"

definition renderUnderlay :: "framework \<Rightarrow> DialogProperties \<Rightarrow> DNode" where
  "renderUnderlay fw props =
     VNode ''div''
       (object [(''classes'',
                   Arr [class_value (theme_of fw (if truthy (underlay props)
                                                  then Some css_underlayVisible else None)),
                        Str (fixedCss_underlay fw)]),
                (''enterAnimation'', or_undefined (theme_of fw (Some css_underlayEnter))),
                (''exitAnimation'', or_undefined (theme_of fw (Some css_underlayExit))),
                (''key'', Str ''underlay''),
                (''onclick'', Fn OnUnderlayClick)])
       []"

text \<open>
  The text of the close button as \<open>render\<close> computes it (lines 190 to 193): the
  caller's \<open>closeText\<close> unless it is falsy (\<open>undefined\<close> or the empty string), else
  the template \<open>`${messages.close} ${title}`\<close>, where \<open>title\<close> defaults to \<open>''\<close>.
\<close>

definition render_closeText :: "framework \<Rightarrow> DialogProperties \<Rightarrow> string" where
  "render_closeText fw props =
     (let title' = default_to [] (title props)
      in case closeText props of
           None \<Rightarrow> messages_close fw @ '' '' @ title'
         | Some t \<Rightarrow> if t = [] then messages_close fw @ '' '' @ title' else t)"

text \<open>The tree that \<open>render\<close> returns (lines 195 to 226).\<close>

definition render_tree :: "framework \<Rightarrow> DialogProperties \<Rightarrow> DialogBase \<Rightarrow> DNode" where
  "render_tree fw props this =
     VNode ''div'' (object [(''classes'', class_value (theme_of fw (Some css_root)))])
       (if default_to False (open props) then
          [WNode GlobalEvent
             (object [(''key'', Str ''global''),
                      (''document'', Obj (object [(''keyup'', Fn OnKeyUp)]))]),
           renderUnderlay fw props,
           VNode ''div''
             (object (formatAriaProperties fw (default_to [] (aria props)) @
                [(''aria-labelledby'', Str (priv_titleId this)),
                 (''classes'', class_value (theme_of fw (Some css_main))),
                 (''enterAnimation'',
                    (case enterAnimation props of
                       None \<Rightarrow> or_undefined (theme_of fw (Some css_enter))
                     | Some a \<Rightarrow> Str a)),
                 (''exitAnimation'',
                    (case exitAnimation props of
                       None \<Rightarrow> or_undefined (theme_of fw (Some css_exit))
                     | Some a \<Rightarrow> Str a)),
                 (''key'', Str ''main''),
                 (''role'', Str (role_string (default_to dialog (role props)))),
                 (''tabIndex'', Num (- 1))]))
             [VNode ''div''
                (object [(''classes'', class_value (theme_of fw (Some css_title))),
                         (''key'', Str ''title'')])
                [renderTitle props this,
                 (if default_to True (closeable props) then
                    VNode ''button''
                      (object [(''classes'', class_value (theme_of fw (Some css_close))),
                               (''type'', Str ''button''),
                               (''onclick'', Fn OnCloseClick)])
                      [TextNode (render_closeText fw props),
                       WNode Icon
                         (object [(''type'', Str ''closeIcon''),
                                  (''theme'', theme props),
                                  (''classes'', classes props)])]
                  else NullNode)],
              getContent fw this]]
        else [])"

text \<open>
  \<open>render\<close>: the open edge (lines 185 and 186), the focus check, then the tree.
  It returns the effects of the pass, the tree and the instance as the pass leaves it.
\<close>

definition render :: "framework \<Rightarrow> DialogProperties \<Rightarrow> bool \<Rightarrow> DialogBase \<Rightarrow> effect list \<times> DNode \<times> DialogBase" where
  "render fw props containsFocus this =
     (let open' = default_to False (open props);
          (e1, this1) = (if open' \<and> \<not> truthy (priv_wasOpen this)
                         then priv_onOpen props this else ([], this));
          this2 = this1\<lparr>priv_wasOpen := Some open'\<rparr>;
          (e2, this3) = priv_checkFocus props containsFocus this2
      in (e1 @ e2, render_tree fw props this3, this3))"

subsection \<open>Instances, passes and observations\<close>

text \<open>
  A new instance (the field initialisers of lines 82 to 85): \<open>_wasOpen\<close> is
  \<open>undefined\<close>, both focus flags are \<open>false\<close>. The title id is what \<open>uuid()\<close> gave.
\<close>

definition new_DialogBase :: "string \<Rightarrow> DNode list \<Rightarrow> DialogBase" where
  "new_DialogBase titleId cs =
     \<lparr>priv_titleId = titleId, priv_wasOpen = None, priv_callFocus = False,
      priv_initialFocusSet = False, children = cs\<rparr>"

text \<open>
  The host renders the widget again and again: each pass has the properties of that
  pass and the answer the focus query would give in it. \<open>renders\<close> runs the passes in
  order on one instance and returns all effects and the instance at the end.
\<close>

fun renders :: "framework \<Rightarrow> (DialogProperties \<times> bool) list \<Rightarrow> DialogBase \<Rightarrow> effect list \<times> DialogBase" where
  "renders fw [] this = ([], this)"
| "renders fw ((props, containsFocus) # passes) this =
     (let (e, tree, this') = render fw props containsFocus this;
          (es, this'') = renders fw passes this'
      in (e @ es, this''))"

text \<open>How often an effect occurs in a list of effects.\<close>

definition occurrences :: "effect \<Rightarrow> effect list \<Rightarrow> nat" where
  "occurrences e es = length (filter (\<lambda>x. x = e) es)"

text \<open>
  The close control of a rendered tree: the second child of the title block, which
  is the first child of the main region, the third child of the root. Its text is
  its first child.
\<close>

fun close_control :: "DNode \<Rightarrow> DNode option" where
  "close_control (VNode root_tag root_props [global, underlay_node, VNode main_tag main_props (VNode title_tag title_props [title_node, control] # content)]) =
     (case control of VNode tag ps cs \<Rightarrow> Some control | _ \<Rightarrow> None)"
| "close_control node = None"

definition close_control_text :: "DNode \<Rightarrow> string option" where
  "close_control_text tree =
     (case close_control tree of
        Some (VNode tag ps (TextNode s # rest)) \<Rightarrow> Some s
      | _ \<Rightarrow> None)"

subsection \<open>A concrete dialog\<close>

text \<open>
  One framework, one set of properties and one event, to run the model on. The
  theme gives every key the class \<open>cls\<close>; Escape has key code 27.
\<close>

definition example_framework :: framework where
  "example_framework =
     \<lparr>theme_of = (\<lambda>c. case c of None \<Rightarrow> None | Some k \<Rightarrow> Some ''cls''),
      fixedCss_underlay = ''underlay'',
      messages_close = ''close'',
      formatAriaProperties = map (\<lambda>(k, x). (''aria-'' @ k, x)),
      Keys_Escape = 27\<rparr>"

definition example_properties :: DialogProperties where
  "example_properties =
     \<lparr>closeable = None, closeText = None, enterAnimation = None, exitAnimation = None,
      modal = None, onOpen = Some (), onRequestClose = Some (), open = Some True,
      role = None, title = Some ''foo'', underlay = None, aria = None,
      theme = Undefined, classes = Undefined\<rparr>"

definition example_dialog :: DialogBase where
  "example_dialog = new_DialogBase ''uuid'' [TextNode ''body'']"

definition example_key :: "int \<Rightarrow> KeyboardEvent" where
  "example_key code = \<lparr>propagationStopped = False, which = code\<rparr>"

definition example_click :: Event where
  "example_click = \<lparr>propagationStopped = False\<rparr>"

section \<open>Properties\<close>

subsection \<open>Auxiliary facts\<close>

lemma priv_close_cases:
  "priv_close props =
     (if closeable props \<noteq> Some False \<and> onRequestClose props \<noteq> None
      then [CallOnRequestClose] else [])"
  by (cases "closeable props") (simp_all add: priv_close_def default_to_def)

lemma truthy_iff: "truthy b \<longleftrightarrow> b = Some True"
  by (cases b) (simp_all add: truthy_def)

lemma default_False_iff: "default_to False b \<longleftrightarrow> b = Some True"
  by (cases b) (simp_all add: default_to_def)

lemma occurrences_append: "occurrences e (xs @ ys) = occurrences e xs + occurrences e ys"
  by (simp add: occurrences_def)

lemma occurrences_zero_iff: "occurrences e xs = 0 \<longleftrightarrow> e \<notin> set xs"
  by (induction xs) (simp_all add: occurrences_def)

lemma checkFocus_closed: "open props \<noteq> Some True \<Longrightarrow> priv_checkFocus props cf this = ([], this)"
  by (simp add: priv_checkFocus_def truthy_iff)

lemma checkFocus_lost_nonmodal:
  "open props = Some True \<Longrightarrow> modal props \<noteq> Some True \<Longrightarrow> priv_initialFocusSet this \<Longrightarrow>
   priv_checkFocus props False this =
     (FocusGet ''main'' # priv_close props @ (if priv_callFocus this then [FocusSet ''main''] else []), this)"
  by (simp add: priv_checkFocus_def truthy_iff)

lemma checkFocus_lost_modal:
  "open props = Some True \<Longrightarrow> modal props = Some True \<Longrightarrow> priv_initialFocusSet this \<Longrightarrow>
   priv_checkFocus props False this =
     ([FocusGet ''main'', FocusSet ''main''], this\<lparr>priv_callFocus := True\<rparr>)"
  by (simp add: priv_checkFocus_def truthy_iff)

lemma checkFocus_not_yet_focused:
  "open props = Some True \<Longrightarrow> \<not> priv_initialFocusSet this \<Longrightarrow>
   priv_checkFocus props False this =
     (FocusGet ''main'' # (if priv_callFocus this then [FocusSet ''main''] else []), this)"
  by (simp add: priv_checkFocus_def truthy_iff)

lemma checkFocus_focused:
  "open props = Some True \<Longrightarrow>
   priv_checkFocus props True this =
     ([FocusGet ''main''], this\<lparr>priv_callFocus := False, priv_initialFocusSet := True\<rparr>)"
  by (simp add: priv_checkFocus_def truthy_iff)

lemma checkFocus_wasOpen: "priv_wasOpen (snd (priv_checkFocus props cf this)) = priv_wasOpen this"
  by (simp add: priv_checkFocus_def Let_def split: prod.splits)

lemma checkFocus_no_onOpen: "CallOnOpen \<notin> set (fst (priv_checkFocus props cf this))"
  by (simp add: priv_checkFocus_def priv_close_def Let_def split: prod.splits)


lemma render_no_edge:
  assumes "\<not> (open props = Some True \<and> priv_wasOpen this \<noteq> Some True)"
  shows "render fw props cf this =
     (let r = priv_checkFocus props cf (this\<lparr>priv_wasOpen := Some (default_to False (open props))\<rparr>)
      in (fst r, render_tree fw props (snd r), snd r))"
proof (cases "default_to False (open props)")
  case True
  with assms have "truthy (priv_wasOpen this)"
    by (simp add: truthy_iff default_False_iff)
  with True show ?thesis
    by (simp add: render_def Let_def case_prod_beta)
next
  case False
  then show ?thesis
    by (simp add: render_def Let_def case_prod_beta)
qed

lemma render_edge:
  assumes "open props = Some True" and "priv_wasOpen this \<noteq> Some True"
  shows "render fw props cf this =
     (let r = priv_checkFocus props cf
                (this\<lparr>priv_callFocus := True, priv_initialFocusSet := False, priv_wasOpen := Some True\<rparr>)
      in ((if onOpen props \<noteq> None then [CallOnOpen] else []) @ fst r,
          render_tree fw props (snd r), snd r))"
proof -
  from assms have "default_to False (open props) \<and> \<not> truthy (priv_wasOpen this)"
    by (simp add: truthy_iff default_False_iff)
  then show ?thesis
    using assms(1) by (simp add: render_def priv_onOpen_def Let_def case_prod_beta default_to_def)
qed

lemma render_wasOpen:
  "priv_wasOpen (snd (snd (render fw props cf this))) = Some (default_to False (open props))"
proof (cases "open props = Some True \<and> priv_wasOpen this \<noteq> Some True")
  case True
  then show ?thesis by (simp add: render_edge Let_def checkFocus_wasOpen default_to_def)
next
  case False
  then show ?thesis by (simp add: render_no_edge Let_def checkFocus_wasOpen)
qed

lemma render_onOpen_count:
  "occurrences CallOnOpen (fst (render fw props cf this)) =
     (if open props = Some True \<and> priv_wasOpen this \<noteq> Some True \<and> onOpen props \<noteq> None then 1 else 0)"
proof (cases "open props = Some True \<and> priv_wasOpen this \<noteq> Some True")
  case True
  have "occurrences CallOnOpen (fst (priv_checkFocus props cf this')) = 0" for this'
    by (simp add: occurrences_zero_iff checkFocus_no_onOpen)
  with True show ?thesis
    by (simp add: render_edge Let_def occurrences_append) (simp add: occurrences_def)
next
  case False
  have "occurrences CallOnOpen (fst (priv_checkFocus props cf this')) = 0" for this'
    by (simp add: occurrences_zero_iff checkFocus_no_onOpen)
  with False show ?thesis
    by (simp add: render_no_edge Let_def)
qed

lemma renders_no_onOpen:
  assumes "priv_wasOpen this = Some b"
    and "\<forall>(props, cf) \<in> set passes. default_to False (open props) = b"
  shows "occurrences CallOnOpen (fst (renders fw passes this)) = 0"
  using assms
proof (induction passes arbitrary: this)
  case Nil
  then show ?case by (simp add: occurrences_def)
next
  case (Cons pass passes)
  obtain props cf where pass: "pass = (props, cf)" by (cases pass)
  let ?next = "snd (snd (render fw props cf this))"
  from Cons.prems pass have b: "default_to False (open props) = b" by simp
  have "priv_wasOpen ?next = Some b"
    by (simp add: render_wasOpen b)
  moreover from Cons.prems have "\<forall>(props, cf) \<in> set passes. default_to False (open props) = b"
    by simp
  ultimately have rest: "occurrences CallOnOpen (fst (renders fw passes ?next)) = 0"
    by (rule Cons.IH)
  have "\<not> (open props = Some True \<and> priv_wasOpen this \<noteq> Some True)"
    using Cons.prems(1) b by (auto simp: default_False_iff)
  then have "occurrences CallOnOpen (fst (render fw props cf this)) = 0"
    by (simp add: render_onOpen_count)
  with rest show ?case
    by (simp add: pass case_prod_beta Let_def occurrences_append)
qed

lemma checkFocus_closeable_false:
  "closeable props = Some False \<Longrightarrow> CallOnRequestClose \<notin> set (fst (priv_checkFocus props cf this))"
  by (simp add: priv_checkFocus_def priv_close_def default_to_def Let_def case_prod_beta)

lemma render_effects_cases:
  "fst (render fw props cf this) =
     (if open props = Some True \<and> priv_wasOpen this \<noteq> Some True
      then (if onOpen props \<noteq> None then [CallOnOpen] else []) @
           fst (priv_checkFocus props cf
                  (this\<lparr>priv_callFocus := True, priv_initialFocusSet := False,
                        priv_wasOpen := Some True\<rparr>))
      else fst (priv_checkFocus props cf
                  (this\<lparr>priv_wasOpen := Some (default_to False (open props))\<rparr>)))"
proof (cases "open props = Some True \<and> priv_wasOpen this \<noteq> Some True")
  case True
  then show ?thesis by (simp add: render_edge Let_def)
next
  case False
  show ?thesis
    by (simp only: if_not_P [OF False] render_no_edge [OF False] Let_def fst_conv snd_conv)
qed

lemma render_state_cases:
  "snd (snd (render fw props cf this)) =
     (if open props = Some True \<and> priv_wasOpen this \<noteq> Some True
      then snd (priv_checkFocus props cf
                  (this\<lparr>priv_callFocus := True, priv_initialFocusSet := False,
                        priv_wasOpen := Some True\<rparr>))
      else snd (priv_checkFocus props cf
                  (this\<lparr>priv_wasOpen := Some (default_to False (open props))\<rparr>)))"
proof (cases "open props = Some True \<and> priv_wasOpen this \<noteq> Some True")
  case True
  then show ?thesis by (simp add: render_edge Let_def)
next
  case False
  show ?thesis
    by (simp only: if_not_P [OF False] render_no_edge [OF False] Let_def fst_conv snd_conv)
qed

lemma render_tree_is:
  "fst (snd (render fw props cf this)) = render_tree fw props (snd (snd (render fw props cf this)))"
  by (simp add: render_def Let_def case_prod_beta)

lemma close_control_text_render:
  assumes "open props = Some True" and "closeable props \<noteq> Some False"
  shows "close_control_text (fst (snd (render fw props cf this))) = Some (render_closeText fw props)"
proof -
  from assms(1) have o: "default_to False (open props) = True"
    by (simp add: default_to_def)
  from assms(2) have c: "default_to True (closeable props) = True"
    by (cases "closeable props") (simp_all add: default_to_def)
  show ?thesis
    by (simp add: close_control_text_def render_tree_is render_tree_def o c)
qed

lemma render_closeText_falsy:
  "closeText props = None \<or> closeText props = Some [] \<Longrightarrow>
   render_closeText fw props = messages_close fw @ '' '' @ default_to [] (title props)"
  by (auto simp: render_closeText_def)

subsection \<open>Losing focus\<close>

text \<open>
  Claim C1. Take a pass in which the dialog is open and not modal, and the instance
  has seen focus inside the main region before (\<open>_initialFocusSet\<close> is true). If
  the focus query now answers that the main region does not contain focus, the focus
  check makes the query, then does exactly what \<open>_close\<close> does, then sets focus only
  if a focus call was still pending, and leaves the fields as they were. The same
  holds of the whole render pass when it is not an open edge (\<open>_wasOpen\<close> is true).
  What \<open>_close\<close> does is to call \<open>onRequestClose\<close> if the dialog is closeable and the
  callback is supplied.
\<close>

theorem nonmodal_focus_loss_requests_close:
  assumes "open props = Some True" and "modal props \<noteq> Some True" and "priv_initialFocusSet this"
  shows "priv_checkFocus props False this =
           (FocusGet ''main'' # priv_close props @
              (if priv_callFocus this then [FocusSet ''main''] else []), this)
       \<and> (priv_wasOpen this = Some True \<longrightarrow>
            fst (render fw props False this) =
              FocusGet ''main'' # priv_close props @
                (if priv_callFocus this then [FocusSet ''main''] else []))
       \<and> priv_close props =
           (if closeable props \<noteq> Some False \<and> onRequestClose props \<noteq> None
            then [CallOnRequestClose] else [])"
proof -
  have check: "priv_checkFocus props False t =
           (FocusGet ''main'' # priv_close props @
              (if priv_callFocus t then [FocusSet ''main''] else []), t)"
    if "priv_initialFocusSet t" for t
    using assms(1,2) that by (rule checkFocus_lost_nonmodal)
  have "fst (render fw props False this) =
              FocusGet ''main'' # priv_close props @
                (if priv_callFocus this then [FocusSet ''main''] else [])"
    if "priv_wasOpen this = Some True"
    using that assms(3) by (simp add: render_effects_cases check)
  with check [OF assms(3)] priv_close_cases [of props] show ?thesis
    by blast
qed

theorem nonmodal_focus_loss_requests_close_witness:
  "open (example_properties\<lparr>modal := Some False\<rparr>) = Some True
   \<and> modal (example_properties\<lparr>modal := Some False\<rparr>) \<noteq> Some True
   \<and> priv_initialFocusSet (example_dialog\<lparr>priv_wasOpen := Some True, priv_initialFocusSet := True\<rparr>)
   \<and> priv_checkFocus (example_properties\<lparr>modal := Some False\<rparr>) False
         (example_dialog\<lparr>priv_wasOpen := Some True, priv_initialFocusSet := True\<rparr>)
       = ([FocusGet ''main'', CallOnRequestClose],
          example_dialog\<lparr>priv_wasOpen := Some True, priv_initialFocusSet := True\<rparr>)
   \<and> fst (render example_framework (example_properties\<lparr>modal := Some False\<rparr>) False
              (example_dialog\<lparr>priv_wasOpen := Some True, priv_initialFocusSet := True\<rparr>))
       = [FocusGet ''main'', CallOnRequestClose]"
proof -
  let ?p = "example_properties\<lparr>modal := Some False\<rparr>"
  let ?t = "example_dialog\<lparr>priv_wasOpen := Some True, priv_initialFocusSet := True\<rparr>"
  have h1: "open ?p = Some True" by (simp add: example_properties_def)
  have h2: "modal ?p \<noteq> Some True" by simp
  have h3: "priv_initialFocusSet ?t" by simp
  have h4: "priv_wasOpen ?t = Some True" by simp
  have v1: "priv_close ?p = [CallOnRequestClose]"
    by (simp add: priv_close_def default_to_def example_properties_def)
  have v2: "\<not> priv_callFocus ?t"
    by (simp add: example_dialog_def new_DialogBase_def)
  note inst = nonmodal_focus_loss_requests_close [OF h1 h2 h3, of example_framework]
  have c1: "priv_checkFocus ?p False ?t = ([FocusGet ''main'', CallOnRequestClose], ?t)"
    using inst [THEN conjunct1] by (simp only: v1 v2 if_False append_Nil2 append_Cons append_Nil)
  have c2: "fst (render example_framework ?p False ?t) = [FocusGet ''main'', CallOnRequestClose]"
    using inst [THEN conjunct2, THEN conjunct1, THEN mp, OF h4]
    by (simp only: v1 v2 if_False append_Nil2 append_Cons append_Nil)
  from h1 h2 h3 c1 c2 show ?thesis by blast
qed

text \<open>
  Claim C2. In the same situation with a modal dialog, the focus check sets
  \<open>_callFocus\<close> and focuses the main region in that very pass: its effects are the
  query and the focus call, and \<open>onRequestClose\<close> is not called.
\<close>

theorem modal_focus_loss_recaptures_focus:
  assumes "open props = Some True" and "modal props = Some True" and "priv_initialFocusSet this"
  shows "priv_checkFocus props False this =
           ([FocusGet ''main'', FocusSet ''main''], this\<lparr>priv_callFocus := True\<rparr>)
       \<and> CallOnRequestClose \<notin> set (fst (priv_checkFocus props False this))
       \<and> (priv_wasOpen this = Some True \<longrightarrow>
            fst (render fw props False this) = [FocusGet ''main'', FocusSet ''main'']
          \<and> priv_callFocus (snd (snd (render fw props False this))))"
proof -
  have check: "priv_checkFocus props False t =
           ([FocusGet ''main'', FocusSet ''main''], t\<lparr>priv_callFocus := True\<rparr>)"
    if "priv_initialFocusSet t" for t
    using assms(1,2) that by (rule checkFocus_lost_modal)
  have "fst (render fw props False this) = [FocusGet ''main'', FocusSet ''main'']
          \<and> priv_callFocus (snd (snd (render fw props False this)))"
    if "priv_wasOpen this = Some True"
    using that assms(3) by (simp add: render_effects_cases render_state_cases check)
  with check [OF assms(3)] show ?thesis
    by simp
qed

theorem modal_focus_loss_recaptures_focus_witness:
  "open (example_properties\<lparr>modal := Some True\<rparr>) = Some True
   \<and> modal (example_properties\<lparr>modal := Some True\<rparr>) = Some True
   \<and> priv_initialFocusSet (example_dialog\<lparr>priv_wasOpen := Some True, priv_initialFocusSet := True\<rparr>)
   \<and> priv_checkFocus (example_properties\<lparr>modal := Some True\<rparr>) False
         (example_dialog\<lparr>priv_wasOpen := Some True, priv_initialFocusSet := True\<rparr>)
       = ([FocusGet ''main'', FocusSet ''main''],
          example_dialog\<lparr>priv_wasOpen := Some True, priv_initialFocusSet := True,
                         priv_callFocus := True\<rparr>)
   \<and> fst (render example_framework (example_properties\<lparr>modal := Some True\<rparr>) False
              (example_dialog\<lparr>priv_wasOpen := Some True, priv_initialFocusSet := True\<rparr>))
       = [FocusGet ''main'', FocusSet ''main'']"
proof -
  let ?p = "example_properties\<lparr>modal := Some True\<rparr>"
  let ?t = "example_dialog\<lparr>priv_wasOpen := Some True, priv_initialFocusSet := True\<rparr>"
  have h1: "open ?p = Some True" by (simp add: example_properties_def)
  have h2: "modal ?p = Some True" by simp
  have h3: "priv_initialFocusSet ?t" by simp
  have h4: "priv_wasOpen ?t = Some True" by simp
  note inst = modal_focus_loss_recaptures_focus [OF h1 h2 h3, of example_framework]
  note c1 = inst [THEN conjunct1]
  note c2 = inst [THEN conjunct2, THEN conjunct2, THEN mp, OF h4, THEN conjunct1]
  from h1 h2 h3 c1 c2 show ?thesis by blast
qed

subsection \<open>The open edge\<close>

text \<open>
  Claim C3. In every render pass the caller's \<open>onOpen\<close> callback (where one is
  supplied) is called exactly when \<open>open\<close> is true and the open value stored by the
  previous pass is false or undefined, and then once. On that edge the rest of the
  pass is the focus check run on the instance with \<open>_callFocus\<close> set and
  \<open>_initialFocusSet\<close> cleared, and the callback comes before the effects of the check.
  Every pass stores the current open value (\<open>false\<close> when the property is omitted) in
  \<open>_wasOpen\<close>. Hence a sequence of passes that all have the same open value calls
  \<open>onOpen\<close> at most once, whatever the instance was before.
\<close>

theorem onOpen_fires_on_open_edge_only:
  "occurrences CallOnOpen (fst (render fw props cf this)) =
     (if open props = Some True \<and> priv_wasOpen this \<noteq> Some True \<and> onOpen props \<noteq> None
      then 1 else 0)
   \<and> (open props = Some True \<and> priv_wasOpen this \<noteq> Some True \<longrightarrow>
        render fw props cf this =
          (let r = priv_checkFocus props cf
                     (this\<lparr>priv_callFocus := True, priv_initialFocusSet := False,
                           priv_wasOpen := Some True\<rparr>)
           in ((if onOpen props \<noteq> None then [CallOnOpen] else []) @ fst r,
               render_tree fw props (snd r), snd r)))
   \<and> priv_wasOpen (snd (snd (render fw props cf this))) = Some (default_to False (open props))
   \<and> ((\<forall>(props, cf) \<in> set passes. default_to False (open props) = b) \<longrightarrow>
        occurrences CallOnOpen (fst (renders fw passes this)) \<le> 1)"
proof -
  have seq: "occurrences CallOnOpen (fst (renders fw passes this)) \<le> 1"
    if all: "\<forall>(props, cf) \<in> set passes. default_to False (open props) = b"
  proof (cases passes)
    case Nil
    then show ?thesis by (simp add: occurrences_def)
  next
    case (Cons pass rest)
    obtain props1 cf1 where pass: "pass = (props1, cf1)" by (cases pass)
    let ?next = "snd (snd (render fw props1 cf1 this))"
    from all Cons pass have "priv_wasOpen ?next = Some b"
      by (simp add: render_wasOpen)
    moreover from all Cons have "\<forall>(props, cf) \<in> set rest. default_to False (open props) = b"
      by simp
    ultimately have "occurrences CallOnOpen (fst (renders fw rest ?next)) = 0"
      by (rule renders_no_onOpen)
    moreover have "occurrences CallOnOpen (fst (render fw props1 cf1 this)) \<le> 1"
      by (simp add: render_onOpen_count)
    ultimately show ?thesis
      by (simp add: Cons pass case_prod_beta Let_def occurrences_append)
  qed
  show ?thesis
    using seq by (simp add: render_onOpen_count render_wasOpen render_edge)
qed

theorem onOpen_fires_on_open_edge_only_witness:
  "open example_properties = Some True \<and> priv_wasOpen example_dialog \<noteq> Some True
   \<and> occurrences CallOnOpen (fst (render example_framework example_properties False example_dialog)) = 1
   \<and> priv_wasOpen (snd (snd (render example_framework example_properties False example_dialog)))
       = Some True
   \<and> occurrences CallOnOpen
         (fst (renders example_framework
                 [(example_properties, False), (example_properties, True),
                  (example_properties, False)] example_dialog)) \<le> 1"
proof -
  have h1: "open example_properties = Some True"
    by (simp add: example_properties_def)
  have h2: "priv_wasOpen example_dialog \<noteq> Some True"
    by (simp add: example_dialog_def new_DialogBase_def)
  have h3: "\<forall>(props, cf) \<in> set [(example_properties, False), (example_properties, True),
                                  (example_properties, False)].
              default_to False (open props) = True"
    by (simp add: h1 default_to_def)
  have h4: "onOpen example_properties \<noteq> None"
    by (simp add: example_properties_def)
  note inst = onOpen_fires_on_open_edge_only
            [of example_framework example_properties False example_dialog
                "[(example_properties, False), (example_properties, True),
                  (example_properties, False)]" True]
  have c1: "occurrences CallOnOpen (fst (render example_framework example_properties False example_dialog)) = 1"
    using inst [THEN conjunct1] h1 h2 h4 by simp
  have c2: "priv_wasOpen (snd (snd (render example_framework example_properties False example_dialog))) = Some True"
    using inst [THEN conjunct2, THEN conjunct2, THEN conjunct1] h1 by (simp add: default_to_def)
  have c3: "occurrences CallOnOpen
         (fst (renders example_framework
                 [(example_properties, False), (example_properties, True),
                  (example_properties, False)] example_dialog)) \<le> 1"
    using inst [THEN conjunct2, THEN conjunct2, THEN conjunct2] h3 by (rule mp)
  from h1 h2 c1 c2 c3 show ?thesis
    by blast
qed

subsection \<open>Before focus has entered the dialog\<close>

text \<open>
  As long as \<open>_initialFocusSet\<close> is false and the focus query answers no, a pass
  calls \<open>onOpen\<close> on an open edge, queries focus when open, and sets focus when a call
  is pending; \<open>_callFocus\<close> changes only on an open edge and \<open>_initialFocusSet\<close> stays
  false.
\<close>

lemma render_before_first_focus:
  assumes "\<not> priv_initialFocusSet this \<or> (open props = Some True \<and> priv_wasOpen this \<noteq> Some True)"
  shows "fst (render fw props False this) =
           (if open props = Some True \<and> priv_wasOpen this \<noteq> Some True \<and> onOpen props \<noteq> None
            then [CallOnOpen] else []) @
           (if open props = Some True
            then FocusGet ''main'' #
                 (if priv_callFocus this \<or> priv_wasOpen this \<noteq> Some True
                  then [FocusSet ''main''] else [])
            else [])"
    and "priv_callFocus (snd (snd (render fw props False this))) =
           (priv_callFocus this \<or> (open props = Some True \<and> priv_wasOpen this \<noteq> Some True))"
    and "\<not> priv_initialFocusSet (snd (snd (render fw props False this)))"
proof -
  consider (edge) "open props = Some True" "priv_wasOpen this \<noteq> Some True"
    | (opened) "open props = Some True" "priv_wasOpen this = Some True" "\<not> priv_initialFocusSet this"
    | (closed) "open props \<noteq> Some True" "\<not> priv_initialFocusSet this"
    using assms by blast
  then have "fst (render fw props False this) =
           (if open props = Some True \<and> priv_wasOpen this \<noteq> Some True \<and> onOpen props \<noteq> None
            then [CallOnOpen] else []) @
           (if open props = Some True
            then FocusGet ''main'' #
                 (if priv_callFocus this \<or> priv_wasOpen this \<noteq> Some True
                  then [FocusSet ''main''] else [])
            else [])
       \<and> priv_callFocus (snd (snd (render fw props False this))) =
           (priv_callFocus this \<or> (open props = Some True \<and> priv_wasOpen this \<noteq> Some True))
       \<and> \<not> priv_initialFocusSet (snd (snd (render fw props False this)))"
  proof cases
    case edge
    then show ?thesis
      by (simp add: render_effects_cases render_state_cases checkFocus_not_yet_focused)
  next
    case opened
    then show ?thesis
      by (simp add: render_effects_cases render_state_cases checkFocus_not_yet_focused)
  next
    case closed
    then show ?thesis
      by (simp add: render_effects_cases render_state_cases checkFocus_closed)
  qed
  then show "fst (render fw props False this) =
           (if open props = Some True \<and> priv_wasOpen this \<noteq> Some True \<and> onOpen props \<noteq> None
            then [CallOnOpen] else []) @
           (if open props = Some True
            then FocusGet ''main'' #
                 (if priv_callFocus this \<or> priv_wasOpen this \<noteq> Some True
                  then [FocusSet ''main''] else [])
            else [])"
    and "priv_callFocus (snd (snd (render fw props False this))) =
           (priv_callFocus this \<or> (open props = Some True \<and> priv_wasOpen this \<noteq> Some True))"
    and "\<not> priv_initialFocusSet (snd (snd (render fw props False this)))"
    by blast+
qed

lemma renders_Cons:
  "renders fw ((props, cf) # passes) this =
     (fst (render fw props cf this) @ fst (renders fw passes (snd (snd (render fw props cf this)))),
      snd (renders fw passes (snd (snd (render fw props cf this)))))"
  by (simp add: case_prod_beta Let_def)

lemma renders_before_first_focus:
  assumes "\<not> priv_initialFocusSet this" and "\<forall>(props, cf) \<in> set passes. \<not> cf"
  shows "CallOnRequestClose \<notin> set (fst (renders fw passes this))
       \<and> \<not> priv_initialFocusSet (snd (renders fw passes this))
       \<and> (priv_callFocus this \<longrightarrow> priv_callFocus (snd (renders fw passes this)))"
  using assms
proof (induction passes arbitrary: this)
  case Nil
  then show ?case by simp
next
  case (Cons pass passes)
  obtain props cf where pass: "pass = (props, cf)" by (cases pass)
  with Cons.prems(2) have cf: "cf = False" by simp
  let ?next = "snd (snd (render fw props False this))"
  from Cons.prems(1)
  have pre: "\<not> priv_initialFocusSet this \<or> (open props = Some True \<and> priv_wasOpen this \<noteq> Some True)"
    by simp
  note step = render_before_first_focus [OF pre, of fw]
  from Cons.prems(2) have "\<forall>(props, cf) \<in> set passes. \<not> cf"
    by simp
  with step(3) have IH: "CallOnRequestClose \<notin> set (fst (renders fw passes ?next))
       \<and> \<not> priv_initialFocusSet (snd (renders fw passes ?next))
       \<and> (priv_callFocus ?next \<longrightarrow> priv_callFocus (snd (renders fw passes ?next)))"
    by (rule Cons.IH)
  have eff: "CallOnRequestClose \<notin> set (fst (render fw props False this))"
    by (simp add: step(1))
  have keep: "priv_callFocus this \<longrightarrow> priv_callFocus ?next"
    by (simp add: step(2))
  from IH eff keep show ?case
    unfolding pass cf renders_Cons by simp
qed

text \<open>
  Claim C4. Take any sequence of passes that starts with an open transition and in
  which the focus query never finds focus inside the main region. Then no pass
  calls \<open>onRequestClose\<close>; \<open>_initialFocusSet\<close> is false at the end, so the focus-lost
  branch of the check was never entered; \<open>_callFocus\<close> is still true, as the open
  transition set it; and a further such pass does nothing but call \<open>onOpen\<close> (on a new
  open edge), query focus and carry out that pending focus call.
\<close>

theorem no_reaction_before_first_focus:
  assumes "open props0 = Some True" and "priv_wasOpen this \<noteq> Some True"
    and "\<forall>(props, cf) \<in> set passes. \<not> cf"
  shows "CallOnRequestClose \<notin> set (fst (renders fw ((props0, False) # passes) this))
       \<and> \<not> priv_initialFocusSet (snd (renders fw ((props0, False) # passes) this))
       \<and> priv_callFocus (snd (renders fw ((props0, False) # passes) this))
       \<and> fst (render fw props1 False (snd (renders fw ((props0, False) # passes) this))) =
           (if open props1 = Some True
               \<and> priv_wasOpen (snd (renders fw ((props0, False) # passes) this)) \<noteq> Some True
               \<and> onOpen props1 \<noteq> None
            then [CallOnOpen] else []) @
           (if open props1 = Some True then [FocusGet ''main'', FocusSet ''main''] else [])"
proof -
  let ?first = "snd (snd (render fw props0 False this))"
  let ?last = "snd (renders fw ((props0, False) # passes) this)"
  from assms(1,2)
  have pre: "\<not> priv_initialFocusSet this \<or> (open props0 = Some True \<and> priv_wasOpen this \<noteq> Some True)"
    by simp
  note step = render_before_first_focus [OF pre, of fw]
  have eff: "CallOnRequestClose \<notin> set (fst (render fw props0 False this))"
    by (simp add: step(1))
  from step(2) assms(1,2) have pending: "priv_callFocus ?first"
    by simp
  from step(3) assms(3)
  have rest: "CallOnRequestClose \<notin> set (fst (renders fw passes ?first))
       \<and> \<not> priv_initialFocusSet (snd (renders fw passes ?first))
       \<and> (priv_callFocus ?first \<longrightarrow> priv_callFocus (snd (renders fw passes ?first)))"
    by (rule renders_before_first_focus)
  have last: "?last = snd (renders fw passes ?first)"
    by (simp only: renders_Cons snd_conv)
  from rest pending last have flags: "\<not> priv_initialFocusSet ?last" "priv_callFocus ?last"
    by simp_all
  from flags(1)
  have "\<not> priv_initialFocusSet ?last \<or> (open props1 = Some True \<and> priv_wasOpen ?last \<noteq> Some True)"
    by simp
  from render_before_first_focus(1) [OF this, of fw] flags(2)
  have next_pass: "fst (render fw props1 False ?last) =
           (if open props1 = Some True \<and> priv_wasOpen ?last \<noteq> Some True \<and> onOpen props1 \<noteq> None
            then [CallOnOpen] else []) @
           (if open props1 = Some True then [FocusGet ''main'', FocusSet ''main''] else [])"
    by simp
  have "CallOnRequestClose \<notin> set (fst (renders fw ((props0, False) # passes) this))"
    using eff rest by (simp only: renders_Cons fst_conv set_append Un_iff) simp
  with flags next_pass show ?thesis
    by blast
qed

theorem no_reaction_before_first_focus_witness:
  "open example_properties = Some True \<and> priv_wasOpen example_dialog \<noteq> Some True
   \<and> CallOnRequestClose \<notin> set (fst (renders example_framework
         [(example_properties, False), (example_properties, False),
          (example_properties\<lparr>modal := Some True\<rparr>, False)] example_dialog))
   \<and> \<not> priv_initialFocusSet (snd (renders example_framework
         [(example_properties, False), (example_properties, False),
          (example_properties\<lparr>modal := Some True\<rparr>, False)] example_dialog))
   \<and> priv_callFocus (snd (renders example_framework
         [(example_properties, False), (example_properties, False),
          (example_properties\<lparr>modal := Some True\<rparr>, False)] example_dialog))"
proof -
  have h1: "open example_properties = Some True"
    by (simp add: example_properties_def)
  have h2: "priv_wasOpen example_dialog \<noteq> Some True"
    by (simp add: example_dialog_def new_DialogBase_def)
  have h3: "\<forall>(props, cf) \<in> set [(example_properties, False),
              (example_properties\<lparr>modal := Some True\<rparr>, False)]. \<not> cf"
    by simp
  note inst = no_reaction_before_first_focus [OF h1 h2 h3, of example_framework example_properties]
  note c1 = inst [THEN conjunct1]
  note c2 = inst [THEN conjunct2, THEN conjunct1]
  note c3 = inst [THEN conjunct2, THEN conjunct2, THEN conjunct1]
  from h1 h2 c1 c2 c3 show ?thesis by blast
qed

subsection \<open>Close requests\<close>

text \<open>
  Claim C5. When \<open>closeable\<close> is false, \<open>_close\<close> does nothing, and so \<open>onRequestClose\<close>
  is called by none of: a click on the close button, a click on the underlay, a
  key-up (Escape or not), the focus check, a render pass.
\<close>

theorem not_closeable_never_requests_close:
  assumes "closeable props = Some False"
  shows "priv_close props = []
       \<and> snd (priv_onCloseClick props click) = []
       \<and> snd (priv_onUnderlayClick props click') = []
       \<and> snd (priv_onKeyUp fw props key) = []
       \<and> CallOnRequestClose \<notin> set (fst (priv_checkFocus props cf this))
       \<and> CallOnRequestClose \<notin> set (fst (render fw props cf this))"
proof -
  have close: "priv_close props = []"
    using assms by (simp add: priv_close_def default_to_def)
  have "CallOnRequestClose \<notin> set (fst (render fw props cf this))"
    using checkFocus_closeable_false [OF assms] by (simp add: render_effects_cases)
  with close checkFocus_closeable_false [OF assms] show ?thesis
    by (simp add: priv_onCloseClick_def priv_onUnderlayClick_def priv_onKeyUp_def)
qed

theorem not_closeable_never_requests_close_witness:
  "closeable (example_properties\<lparr>closeable := Some False\<rparr>) = Some False
   \<and> snd (priv_onCloseClick (example_properties\<lparr>closeable := Some False\<rparr>) example_click) = []
   \<and> snd (priv_onUnderlayClick (example_properties\<lparr>closeable := Some False\<rparr>) example_click) = []
   \<and> snd (priv_onKeyUp example_framework (example_properties\<lparr>closeable := Some False\<rparr>)
              (example_key 27)) = []
   \<and> CallOnRequestClose \<notin> set (fst (render example_framework
         (example_properties\<lparr>closeable := Some False\<rparr>) False
         (example_dialog\<lparr>priv_wasOpen := Some True, priv_initialFocusSet := True\<rparr>)))"
proof -
  have h: "closeable (example_properties\<lparr>closeable := Some False\<rparr>) = Some False" by simp
  note inst = not_closeable_never_requests_close [OF h, of example_click example_click
      example_framework "example_key 27" False
      "example_dialog\<lparr>priv_wasOpen := Some True, priv_initialFocusSet := True\<rparr>"]
  from h inst show ?thesis by blast
qed

text \<open>
  Claim C6, as the code has it. The key-up handler stops the propagation of every
  key-up event, whatever its key code. If the code is Escape it also requests a
  close, whatever \<open>modal\<close> is: \<open>onRequestClose\<close> is called if the dialog is closeable
  and the callback is supplied. For any other key code it does nothing more.
\<close>

theorem keyUp_closes_on_Escape_only:
  "fst (priv_onKeyUp fw props event) = event\<lparr>propagationStopped := True\<rparr>
   \<and> (which event = Keys_Escape fw \<longrightarrow>
        snd (priv_onKeyUp fw props event) =
          (if closeable props \<noteq> Some False \<and> onRequestClose props \<noteq> None
           then [CallOnRequestClose] else []))
   \<and> (which event \<noteq> Keys_Escape fw \<longrightarrow> snd (priv_onKeyUp fw props event) = [])"
  by (simp add: priv_onKeyUp_def stopPropagation_def priv_close_cases)

theorem keyUp_closes_on_Escape_only_witness:
  "which (example_key 27) = Keys_Escape example_framework
   \<and> snd (priv_onKeyUp example_framework example_properties (example_key 27)) = [CallOnRequestClose]
   \<and> which (example_key 13) \<noteq> Keys_Escape example_framework
   \<and> snd (priv_onKeyUp example_framework example_properties (example_key 13)) = []
   \<and> propagationStopped (fst (priv_onKeyUp example_framework example_properties (example_key 13)))"
proof -
  have h1: "which (example_key 27) = Keys_Escape example_framework"
    by (simp add: example_key_def example_framework_def)
  have h2: "which (example_key 13) \<noteq> Keys_Escape example_framework"
    by (simp add: example_key_def example_framework_def)
  have p: "closeable example_properties \<noteq> Some False \<and> onRequestClose example_properties \<noteq> None"
    by (simp add: example_properties_def)
  note esc = keyUp_closes_on_Escape_only [of example_framework example_properties "example_key 27"]
  note other = keyUp_closes_on_Escape_only [of example_framework example_properties "example_key 13"]
  have c1: "snd (priv_onKeyUp example_framework example_properties (example_key 27)) = [CallOnRequestClose]"
    using esc [THEN conjunct2, THEN conjunct1, THEN mp, OF h1] p by simp
  note c2 = other [THEN conjunct2, THEN conjunct2, THEN mp, OF h2]
  have c3: "propagationStopped (fst (priv_onKeyUp example_framework example_properties (example_key 13)))"
    using other [THEN conjunct1] by simp
  from h1 h2 c1 c2 c3 show ?thesis by blast
qed

text \<open>
  A key-up of Enter (key code 13) is not without effect: the handler returns the
  event with its propagation stopped.
\<close>

theorem keyUp_other_key_stops_propagation:
  "which (example_key 13) \<noteq> Keys_Escape example_framework
   \<and> priv_onKeyUp example_framework example_properties (example_key 13)
       = (\<lparr>propagationStopped = True, which = 13\<rparr>, [])
   \<and> fst (priv_onKeyUp example_framework example_properties (example_key 13)) \<noteq> example_key 13"
  by (simp add: priv_onKeyUp_def stopPropagation_def example_key_def example_framework_def)

text \<open>
  Claim C7. A click on the underlay always has its propagation stopped. It requests
  a close when \<open>modal\<close> is false or omitted, and does nothing more when \<open>modal\<close> is
  true.
\<close>

theorem underlay_click_closes_unless_modal:
  "fst (priv_onUnderlayClick props event) = event\<lparr>propagationStopped := True\<rparr>
   \<and> (modal props \<noteq> Some True \<longrightarrow>
        snd (priv_onUnderlayClick props event) =
          (if closeable props \<noteq> Some False \<and> onRequestClose props \<noteq> None
           then [CallOnRequestClose] else []))
   \<and> (modal props = Some True \<longrightarrow> snd (priv_onUnderlayClick props event) = [])"
  by (simp add: priv_onUnderlayClick_def stopPropagation_def priv_close_cases truthy_iff)

theorem underlay_click_closes_unless_modal_witness:
  "modal example_properties \<noteq> Some True
   \<and> snd (priv_onUnderlayClick example_properties example_click) = [CallOnRequestClose]
   \<and> modal (example_properties\<lparr>modal := Some True\<rparr>) = Some True
   \<and> snd (priv_onUnderlayClick (example_properties\<lparr>modal := Some True\<rparr>) example_click) = []
   \<and> propagationStopped (fst (priv_onUnderlayClick example_properties example_click))"
proof -
  have h1: "modal example_properties \<noteq> Some True"
    by (simp add: example_properties_def)
  have h2: "modal (example_properties\<lparr>modal := Some True\<rparr>) = Some True"
    by simp
  have p: "closeable example_properties \<noteq> Some False \<and> onRequestClose example_properties \<noteq> None"
    by (simp add: example_properties_def)
  note plain = underlay_click_closes_unless_modal [of example_properties example_click]
  note modal = underlay_click_closes_unless_modal
                 [of "example_properties\<lparr>modal := Some True\<rparr>" example_click]
  have c1: "snd (priv_onUnderlayClick example_properties example_click) = [CallOnRequestClose]"
    using plain [THEN conjunct2, THEN conjunct1, THEN mp, OF h1] p by simp
  note c2 = modal [THEN conjunct2, THEN conjunct2, THEN mp, OF h2]
  have c3: "propagationStopped (fst (priv_onUnderlayClick example_properties example_click))"
    using plain [THEN conjunct1] by simp
  from h1 h2 c1 c2 c3 show ?thesis by blast
qed

subsection \<open>The closed dialog\<close>

text \<open>
  Claim C8. When \<open>open\<close> is false or omitted, the focus check has no effect (it does
  not query focus) and returns the instance as it was, and the pass as a whole has
  no effect, stores \<open>false\<close> in \<open>_wasOpen\<close> and renders the root container with no
  children: no key listener, no underlay, no main region.
\<close>

theorem closed_dialog_is_inert:
  assumes "open props \<noteq> Some True"
  shows "priv_checkFocus props cf this = ([], this)
       \<and> render fw props cf this =
           ([], VNode ''div'' [(''classes'', class_value (theme_of fw (Some css_root)))] [],
            this\<lparr>priv_wasOpen := Some False\<rparr>)"
proof -
  from assms have d: "default_to False (open props) = False"
    by (simp add: default_False_iff)
  from assms have "render fw props cf this =
           ([], VNode ''div'' [(''classes'', class_value (theme_of fw (Some css_root)))] [],
            this\<lparr>priv_wasOpen := Some False\<rparr>)"
    by (simp add: render_no_edge checkFocus_closed d render_tree_def object_def)
  with checkFocus_closed [OF assms] show ?thesis
    by simp
qed

theorem closed_dialog_is_inert_witness:
  "open (example_properties\<lparr>open := Some False\<rparr>) \<noteq> Some True
   \<and> priv_checkFocus (example_properties\<lparr>open := Some False\<rparr>) True example_dialog
       = ([], example_dialog)
   \<and> render example_framework (example_properties\<lparr>open := Some False\<rparr>) True example_dialog
       = ([], VNode ''div'' [(''classes'', Str ''cls'')] [],
          example_dialog\<lparr>priv_wasOpen := Some False\<rparr>)"
proof -
  have h: "open (example_properties\<lparr>open := Some False\<rparr>) \<noteq> Some True" by simp
  have v: "class_value (theme_of example_framework (Some css_root)) = Str ''cls''"
    by (simp add: class_value_def example_framework_def)
  note inst = closed_dialog_is_inert [OF h, of True example_dialog example_framework]
  note c1 = inst [THEN conjunct1]
  have c2: "render example_framework (example_properties\<lparr>open := Some False\<rparr>) True example_dialog
       = ([], VNode ''div'' [(''classes'', Str ''cls'')] [],
          example_dialog\<lparr>priv_wasOpen := Some False\<rparr>)"
    using inst [THEN conjunct2] by (simp only: v)
  from h c1 c2 show ?thesis by blast
qed

subsection \<open>The text of the close control\<close>

text \<open>
  Claim C9, as the code has it. When the caller supplies no \<open>closeText\<close> and the close
  control is rendered (the dialog is open and closeable), its text is the localized
  close phrase, one space, and the title (the empty string when no title is given).
\<close>

theorem default_closeText_has_space:
  assumes "closeText props = None" and "open props = Some True" and "closeable props \<noteq> Some False"
  shows "close_control_text (fst (snd (render fw props cf this))) =
           Some (messages_close fw @ '' '' @ default_to [] (title props))"
  using assms by (simp add: close_control_text_render render_closeText_falsy)

theorem default_closeText_has_space_witness:
  "closeText example_properties = None \<and> open example_properties = Some True
   \<and> closeable example_properties \<noteq> Some False
   \<and> close_control_text
         (fst (snd (render example_framework example_properties False example_dialog)))
       = Some ''close foo''"
proof -
  have h: "closeText example_properties = None" "open example_properties = Some True"
      "closeable example_properties \<noteq> Some False"
    by (simp_all add: example_properties_def)
  have v: "messages_close example_framework @ '' '' @ default_to [] (title example_properties)
             = ''close foo''"
    by (simp add: example_framework_def example_properties_def default_to_def)
  have c: "close_control_text
         (fst (snd (render example_framework example_properties False example_dialog)))
       = Some ''close foo''"
    using default_closeText_has_space [OF h, of example_framework False example_dialog]
    by (simp only: v)
  from h c show ?thesis by blast
qed

text \<open>
  With the phrase \<open>close\<close> and the title \<open>foo\<close> the text is \<open>close foo\<close>, which is not
  the phrase followed directly by the title.
\<close>

theorem default_closeText_not_plain_concatenation:
  "closeText example_properties = None
   \<and> close_control_text (fst (snd (render example_framework example_properties False example_dialog)))
       = Some ''close foo''
   \<and> messages_close example_framework @ default_to [] (title example_properties) = ''closefoo''
   \<and> close_control_text (fst (snd (render example_framework example_properties False example_dialog)))
       \<noteq> Some (messages_close example_framework @ default_to [] (title example_properties))"
proof -
  have p: "closeText example_properties = None" "open example_properties = Some True"
      "closeable example_properties \<noteq> Some False" "title example_properties = Some ''foo''"
    by (simp_all add: example_properties_def)
  have "close_control_text (fst (snd (render example_framework example_properties False example_dialog)))
       = Some ''close foo''"
    using p by (simp add: close_control_text_render render_closeText_falsy default_to_def example_framework_def)
  with p show ?thesis
    by (simp add: default_to_def example_framework_def)
qed

text \<open>
  Claim C10. A \<open>closeText\<close> that is the empty string is treated as an omitted one:
  the whole pass (effects, tree and instance) is the same, and the close control,
  when rendered, shows the default text.
\<close>

theorem empty_closeText_is_default:
  "render fw (props\<lparr>closeText := Some []\<rparr>) cf this = render fw (props\<lparr>closeText := None\<rparr>) cf this
   \<and> render_closeText fw (props\<lparr>closeText := Some []\<rparr>) =
       messages_close fw @ '' '' @ default_to [] (title props)
   \<and> (open props = Some True \<and> closeable props \<noteq> Some False \<longrightarrow>
        close_control_text (fst (snd (render fw (props\<lparr>closeText := Some []\<rparr>) cf this))) =
          Some (messages_close fw @ '' '' @ default_to [] (title props)))"
proof -
  have text_eq: "render_closeText fw (props\<lparr>closeText := Some []\<rparr>) =
       messages_close fw @ '' '' @ default_to [] (title props)"
    by (simp add: render_closeText_def)
  have "render_closeText fw (props\<lparr>closeText := Some []\<rparr>) = render_closeText fw (props\<lparr>closeText := None\<rparr>)"
    by (simp add: render_closeText_def)
  then have tree_eq: "render_tree fw (props\<lparr>closeText := Some []\<rparr>) t = render_tree fw (props\<lparr>closeText := None\<rparr>) t" for t
    by (simp add: render_tree_def renderUnderlay_def renderTitle_def)
  have check_eq: "priv_checkFocus (props\<lparr>closeText := x\<rparr>) cf t = priv_checkFocus props cf t" for x t
    by (simp add: priv_checkFocus_def priv_close_def)
  have open_eq: "priv_onOpen (props\<lparr>closeText := x\<rparr>) t = priv_onOpen props t" for x t
    by (simp add: priv_onOpen_def)
  have render_eq: "render fw (props\<lparr>closeText := Some []\<rparr>) cf this = render fw (props\<lparr>closeText := None\<rparr>) cf this"
    by (simp add: render_def open_eq check_eq tree_eq cong: if_cong)
  have "close_control_text (fst (snd (render fw (props\<lparr>closeText := Some []\<rparr>) cf this))) =
          Some (messages_close fw @ '' '' @ default_to [] (title props))"
    if "open props = Some True" "closeable props \<noteq> Some False"
    using that text_eq by (simp add: close_control_text_render)
  with text_eq render_eq show ?thesis
    by blast
qed

theorem empty_closeText_is_default_witness:
  "open example_properties = Some True \<and> closeable example_properties \<noteq> Some False
   \<and> close_control_text
         (fst (snd (render example_framework (example_properties\<lparr>closeText := Some []\<rparr>) False
                      example_dialog)))
       = Some ''close foo''
   \<and> render example_framework (example_properties\<lparr>closeText := Some []\<rparr>) False example_dialog
       = render example_framework (example_properties\<lparr>closeText := None\<rparr>) False example_dialog"
proof -
  have h: "open example_properties = Some True \<and> closeable example_properties \<noteq> Some False"
    by (simp add: example_properties_def)
  have v: "messages_close example_framework @ '' '' @ default_to [] (title example_properties)
             = ''close foo''"
    by (simp add: example_framework_def example_properties_def default_to_def)
  note inst = empty_closeText_is_default [of example_framework example_properties False example_dialog]
  have c: "close_control_text
         (fst (snd (render example_framework (example_properties\<lparr>closeText := Some []\<rparr>) False
                      example_dialog)))
       = Some ''close foo''"
    using inst [THEN conjunct2, THEN conjunct2, THEN mp, OF h] by (simp only: v)
  from h c inst [THEN conjunct1] show ?thesis by blast
qed

end
